theory Spec2Isabelle
  imports Complex_Main "HOL-Library.Sublist" "HOL-Library.AList"
begin

section \<open>JavaScript values read from JSON\<close>

text \<open>
  The scripts under \<^verbatim>\<open>web/static/js\<close> only handle values that come out of
  \<^verbatim>\<open>JSON.parse\<close>/\<^verbatim>\<open>res.json()\<close> or that they build as object literals.
  A number is kept as the text \<^verbatim>\<open>Number.prototype.toString\<close> prints for it (so
  both zeros are \<open>''0''\<close>); an object is the list of its own properties in insertion
  order, with distinct keys. Strings are UTF-8 byte lists.
\<close>

datatype json =
    JNull
  | JBool bool
  | JNum string
  | JStr string
  | JArr "json list"
  | JObj "(string \<times> json) list"

text \<open>\<^verbatim>\<open>ToBoolean\<close>: what \<^verbatim>\<open>&&\<close>, \<^verbatim>\<open>||\<close> and \<^verbatim>\<open>if\<close> test.\<close>

fun truthy :: "json \<Rightarrow> bool" where
  "truthy JNull = False"
| "truthy (JBool b) = b"
| "truthy (JNum s) = (s \<noteq> ''0'' \<and> s \<noteq> ''NaN'')"
| "truthy (JStr s) = (s \<noteq> [])"
| "truthy (JArr xs) = True"
| "truthy (JObj kvs) = True"

text \<open>
  Property read \<^verbatim>\<open>v.k\<close> on a value that is not \<^verbatim>\<open>null\<close>, for the keys the scripts
  read (\<^verbatim>\<open>detail\<close>, \<^verbatim>\<open>answer\<close>, \<^verbatim>\<open>history\<close>): none of them is a built-in property
  of a string, an array or \<^verbatim>\<open>Object.prototype\<close>, so only an object's own property is
  found. \<open>None\<close> is \<^verbatim>\<open>undefined\<close>.
\<close>

fun get_prop :: "json \<Rightarrow> string \<Rightarrow> json option" where
  "get_prop (JObj kvs) k = map_of kvs k"
| "get_prop v k = None"

fun join_comma :: "string list \<Rightarrow> string" where
  "join_comma [] = []"
| "join_comma [s] = s"
| "join_comma (s # t # ss) = s @ '','' @ join_comma (t # ss)"

text \<open>
  \<^verbatim>\<open>ToString\<close>, as \<^verbatim>\<open>new Error(v)\<close> applies it. An array joins its elements with
  commas, \<^verbatim>\<open>null\<close> elements printing as the empty string. A parsed object prints as
  \<^verbatim>\<open>[object Object]\<close> through \<^verbatim>\<open>Object.prototype.toString\<close>, unless it has an own
  property \<^verbatim>\<open>toString\<close>: that value is not callable, \<^verbatim>\<open>valueOf\<close> gives no primitive,
  and the conversion throws a \<^verbatim>\<open>TypeError\<close> (\<open>None\<close>).
\<close>

fun js_to_string :: "json \<Rightarrow> string option"
  and js_elements :: "json list \<Rightarrow> string list option" where
  "js_to_string JNull = Some ''null''"
| "js_to_string (JBool b) = Some (if b then ''true'' else ''false'')"
| "js_to_string (JNum s) = Some s"
| "js_to_string (JStr s) = Some s"
| "js_to_string (JArr xs) = map_option join_comma (js_elements xs)"
| "js_to_string (JObj kvs) =
     (if ''toString'' \<in> fst ` set kvs then None else Some ''[object Object]'')"
| "js_elements [] = Some []"
| "js_elements (x # xs) =
     (case (if x = JNull then Some [] else js_to_string x) of
        None \<Rightarrow> None
      | Some s \<Rightarrow> (case js_elements xs of None \<Rightarrow> None | Some ss \<Rightarrow> Some (s # ss)))"

section \<open>\<^verbatim>\<open>api_client.js\<close>: \<^verbatim>\<open>request\<close>\<close>

text \<open>
  Line numbers are those of \<^verbatim>\<open>src/web/static/js/api_client.js\<close>.
\<close>

record fetch_options =
  opt_method :: string
  opt_headers :: "(string \<times> string) list"
  opt_body :: "string option"

record response =
  res_ok :: bool
  res_status :: nat
  res_body :: "json option"

text \<open>
  \<open>res_body\<close> is what \<^verbatim>\<open>res.json()\<close> settles to: \<open>None\<close> when it rejects (the body is
  not valid JSON), \<open>Some v\<close> for the parsed value. \<^verbatim>\<open>fetch\<close> itself either rejects
  (no response at all) or resolves with a response, whatever its status.
\<close>

datatype fetch_result = FetchRejected | Response response

record request_error =
  err_message :: string
  err_status :: nat
  err_data :: json

datatype thrown = HttpError request_error | TypeError | FetchFailure

datatype settled = Resolved json | Rejected thrown

text \<open>
  Lines 4 to 11: the options object. \<open>to_upper\<close> is \<^verbatim>\<open>String.prototype.toUpperCase\<close>
  and \<open>stringify\<close> is \<^verbatim>\<open>JSON.stringify\<close>, both supplied by the browser. The body
  argument is \<open>None\<close> for \<^verbatim>\<open>undefined\<close> or \<^verbatim>\<open>null\<close>.
\<close>

definition build_options ::
  "(string \<Rightarrow> string) \<Rightarrow> (json \<Rightarrow> string) \<Rightarrow> string \<Rightarrow> json option \<Rightarrow> fetch_options" where
  "build_options to_upper stringify method body =
     (case body of
        None \<Rightarrow> \<lparr>opt_method = to_upper method, opt_headers = [], opt_body = None\<rparr>
      | Some b \<Rightarrow> \<lparr>opt_method = to_upper method,
                   opt_headers = [(''Content-Type'', ''application/json'')],
                   opt_body = Some (stringify b)\<rparr>)"

text \<open>Lines 13 to 18: \<^verbatim>\<open>data\<close> is the parsed body, or \<^verbatim>\<open>null\<close> when parsing throws.\<close>

definition parsed_or_null :: "response \<Rightarrow> json" where
  "parsed_or_null res = (case res_body res of None \<Rightarrow> JNull | Some v \<Rightarrow> v)"

text \<open>Line 20: \<^verbatim>\<open>(data && data.detail) || "Request failed"\<close>.\<close>

definition error_message_value :: "json \<Rightarrow> json" where
  "error_message_value data =
     (if truthy data then
        (case get_prop data ''detail'' of
           None \<Rightarrow> JStr ''Request failed''
         | Some d \<Rightarrow> if truthy d then d else JStr ''Request failed'')
      else JStr ''Request failed'')"

text \<open>Lines 19 to 25, once \<^verbatim>\<open>fetch\<close> has resolved with \<open>res\<close>.\<close>

definition settle_response :: "response \<Rightarrow> settled" where
  "settle_response res =
     (let data = parsed_or_null res in
      if \<not> res_ok res then
        (case js_to_string (error_message_value data) of
           None \<Rightarrow> Rejected TypeError
         | Some m \<Rightarrow> Rejected (HttpError
             \<lparr>err_message = m, err_status = res_status res, err_data = data\<rparr>))
      else Resolved data)"

text \<open>
  The whole of \<^verbatim>\<open>request\<close> after line 12, given what the awaited \<^verbatim>\<open>fetch\<close> settled to.
  A rejected \<^verbatim>\<open>fetch\<close> is not caught, so it rejects the \<^verbatim>\<open>request\<close> as well.
\<close>

definition request :: "fetch_result \<Rightarrow> settled" where
  "request fetched =
     (case fetched of
        FetchRejected \<Rightarrow> Rejected FetchFailure
      | Response res \<Rightarrow> settle_response res)"

section \<open>\<^verbatim>\<open>chat_widget.js\<close>: the chat widget\<close>

text \<open>
  The widget is the second script held in \<^verbatim>\<open>src/web/static/js/layout.js\<close> (lines 182 to
  391), whose line numbers are used here.
  The widget keeps the conversation in the variable \<^verbatim>\<open>chatHistory\<close> and mirrors it into
  \<^verbatim>\<open>sessionStorage\<close>. A stored text is represented by what \<^verbatim>\<open>JSON.parse\<close> makes of it:
  \<open>Unparsable\<close> when it throws (or the text is empty, which line 211 treats alike),
  \<open>Parses v\<close> otherwise; \<^verbatim>\<open>JSON.stringify\<close> of a history \<open>h\<close> is stored as
  \<open>Parses (JArr h)\<close>.
\<close>

datatype stored_text = Unparsable | Parses json

type_synonym session_storage = "string \<rightharpoonup> stored_text"

record widget =
  chatHistory :: "json list"
  storage :: session_storage

definition CHAT_STORAGE_KEY :: string where
  "CHAT_STORAGE_KEY = ''jf_chat_history_v1''"


text \<open>
  Lines 221 to 227. \<^verbatim>\<open>setItem\<close> throws when the storage refuses the write (quota,
  disabled storage); the exception is caught and the item stays as it was. Whether the
  write is accepted is the browser's answer \<open>writable\<close>.
\<close>

definition saveHistoryToStorage :: "bool \<Rightarrow> json list \<Rightarrow> session_storage \<Rightarrow> session_storage" where
  "saveHistoryToStorage writable h st =
     (if writable then st(CHAT_STORAGE_KEY \<mapsto> Parses (JArr h)) else st)"

text \<open>
  Lines 235 to 263 change the page only, but \<^verbatim>\<open>m.role\<close> at line 242 throws a
  \<^verbatim>\<open>TypeError\<close> when an element of the history is \<^verbatim>\<open>null\<close>.
\<close>

definition renderHistory_throws :: "json list \<Rightarrow> bool" where
  "renderHistory_throws h = (JNull \<in> set h)"


definition assistant_message :: "json \<Rightarrow> json" where
  "assistant_message answer = JObj [(''role'', JStr ''assistant''), (''content'', answer)]"


definition apology_text :: string where
  "apology_text = ''Xin l'' @ [CHR 0xE1, CHR 0xBB, CHR 0x97] @ ''i, chatbot ''
     @ [CHR 0xC4, CHR 0x91] @ ''ang g'' @ [CHR 0xE1, CHR 0xBA, CHR 0xB7] @ ''p s''
     @ [CHR 0xE1, CHR 0xBB, CHR 0xB1] @ '' c'' @ [CHR 0xE1, CHR 0xBB, CHR 0x91] @ ''. B''
     @ [CHR 0xE1, CHR 0xBA, CHR 0xA1] @ ''n th'' @ [CHR 0xE1, CHR 0xBB, CHR 0xAD] @ '' l''
     @ [CHR 0xE1, CHR 0xBA, CHR 0xA1] @ ''i sau nh'' @ [CHR 0xC3, CHR 0xA9] @ ''.''"





text \<open>Lines 377 to 385, the \<^verbatim>\<open>catch\<close> handler.\<close>

definition on_chat_error :: "bool \<Rightarrow> widget \<Rightarrow> widget" where
  "on_chat_error writable w =
     (let h = chatHistory w @ [assistant_message (JStr apology_text)]
      in if renderHistory_throws h then w\<lparr>chatHistory := h\<rparr>
         else w\<lparr>chatHistory := h, storage := saveHistoryToStorage writable h (storage w)\<rparr>)"



section \<open>The schema: \<^verbatim>\<open>jobs\<close> and \<^verbatim>\<open>rag_job_documents\<close>\<close>

text \<open>
  Of the two schema files, \<^verbatim>\<open>src/unnamed/part_000\<close> is the later one: it drops and
  recreates \<^verbatim>\<open>rag_job_documents\<close> (lines 82 to 134) with the columns, the unique
  index and the vector index that \<^verbatim>\<open>src/db/db.sql\<close> does not have yet. Line numbers
  are those of \<^verbatim>\<open>part_000\<close>. A row is a record of its columns; a nullable column is an
  \<open>option\<close>, \<open>None\<close> being SQL \<^verbatim>\<open>NULL\<close>. Timestamps are microseconds, and the
  elements of a \<^verbatim>\<open>vector\<close> are finite single-precision numbers, hence rationals.
  The length limits of the \<^verbatim>\<open>VARCHAR\<close> columns and the range of \<^verbatim>\<open>INT\<close> are not
  modelled: the model accepts at least the rows the database accepts.
\<close>

record rag_doc =
  doc_id :: int
  job_id :: int
  doc_type :: string
  section_type :: "string option"
  chunk_index :: int
  content :: string
  metadata :: "json option"
  embedding_vec :: "rat list option"
  created_at :: int
  updated_at :: int

text \<open>
  Of table \<^verbatim>\<open>jobs\<close> only the primary key matters to \<^verbatim>\<open>rag_job_documents\<close>: the
  table is the set of its \<^verbatim>\<open>id\<close>s.
\<close>

record db =
  jobs :: "int set"
  rag_job_documents :: "rag_doc list"

definition empty_db :: db where
  "empty_db = \<lparr>jobs = {}, rag_job_documents = []\<rparr>"

datatype db_error =
    unique_violation string
  | foreign_key_violation string
  | dimension_mismatch nat nat

text \<open>Line 98: \<^verbatim>\<open>embedding_vec vector(1536)\<close>.\<close>

definition embedding_dim :: nat where
  "embedding_dim = 1536"

text \<open>
  A value stored into a \<^verbatim>\<open>vector(n)\<close> column must have \<open>n\<close> dimensions (the
  extension raises \<^verbatim>\<open>expected n dimensions, not m\<close>); \<^verbatim>\<open>NULL\<close> is accepted.
\<close>

definition embedding_fits :: "rag_doc \<Rightarrow> bool" where
  "embedding_fits d =
     (case embedding_vec d of None \<Rightarrow> True | Some v \<Rightarrow> length v = embedding_dim)"

text \<open>
  Lines 105 and 106: the unique index on
  \<^verbatim>\<open>(job_id, doc_type, section_type, chunk_index)\<close>. It is declared without
  \<^verbatim>\<open>NULLS NOT DISTINCT\<close>, so PostgreSQL compares \<^verbatim>\<open>NULL\<close>s as distinct: two rows
  collide only when all four columns are equal and \<^verbatim>\<open>section_type\<close>, the one nullable
  column, is not \<^verbatim>\<open>NULL\<close>.
\<close>

definition uq_rag_job_docs_job_doc_chunk :: "rag_doc \<Rightarrow> rag_doc \<Rightarrow> bool" where
  "uq_rag_job_docs_job_doc_chunk new old =
     (job_id old = job_id new \<and> doc_type old = doc_type new
      \<and> (case section_type new of
            None \<Rightarrow> False
          | Some a \<Rightarrow> section_type old = Some a)
      \<and> chunk_index old = chunk_index new)"

text \<open>The columns the comment at line 104 says must not repeat within a job.\<close>

definition doc_key :: "rag_doc \<Rightarrow> int \<times> string \<times> string option \<times> int" where
  "doc_key d = (job_id d, doc_type d, section_type d, chunk_index d)"

text \<open>
  \<^verbatim>\<open>INSERT INTO rag_job_documents\<close> of one row, its defaults already filled in. The
  checks are those of the table: the column type of \<^verbatim>\<open>embedding_vec\<close>, the primary
  key, the unique index, and the foreign key of line 87.
\<close>

definition insert_rag_doc :: "rag_doc \<Rightarrow> db \<Rightarrow> db_error + db" where
  "insert_rag_doc d s =
     (if \<not> embedding_fits d then
        Inl (dimension_mismatch embedding_dim (length (the (embedding_vec d))))
      else if \<exists>r \<in> set (rag_job_documents s). doc_id r = doc_id d then
        Inl (unique_violation ''rag_job_documents_pkey'')
      else if \<exists>r \<in> set (rag_job_documents s). uq_rag_job_docs_job_doc_chunk d r then
        Inl (unique_violation ''uq_rag_job_docs_job_doc_chunk'')
      else if job_id d \<notin> jobs s then
        Inl (foreign_key_violation ''rag_job_documents_job_id_fkey'')
      else Inr (s\<lparr>rag_job_documents := rag_job_documents s @ [d]\<rparr>))"

text \<open>
  \<^verbatim>\<open>UPDATE rag_job_documents SET ... WHERE id = doc_id d\<close>, every other column taken
  from \<open>d\<close>. The same checks apply, against the other rows.
\<close>

definition update_rag_doc :: "rag_doc \<Rightarrow> db \<Rightarrow> db_error + db" where
  "update_rag_doc d s =
     (let others = filter (\<lambda>r. doc_id r \<noteq> doc_id d) (rag_job_documents s) in
      if \<not> (\<exists>r \<in> set (rag_job_documents s). doc_id r = doc_id d) then Inr s
      else if \<not> embedding_fits d then
        Inl (dimension_mismatch embedding_dim (length (the (embedding_vec d))))
      else if \<exists>r \<in> set others. uq_rag_job_docs_job_doc_chunk d r then
        Inl (unique_violation ''uq_rag_job_docs_job_doc_chunk'')
      else if job_id d \<notin> jobs s then
        Inl (foreign_key_violation ''rag_job_documents_job_id_fkey'')
      else Inr (s\<lparr>rag_job_documents :=
                   map (\<lambda>r. if doc_id r = doc_id d then d else r) (rag_job_documents s)\<rparr>))"

definition delete_rag_doc :: "int \<Rightarrow> db \<Rightarrow> db_error + db" where
  "delete_rag_doc i s =
     Inr (s\<lparr>rag_job_documents := filter (\<lambda>r. doc_id r \<noteq> i) (rag_job_documents s)\<rparr>)"

definition insert_job :: "int \<Rightarrow> db \<Rightarrow> db_error + db" where
  "insert_job j s =
     (if j \<in> jobs s then Inl (unique_violation ''jobs_pkey'')
      else Inr (s\<lparr>jobs := insert j (jobs s)\<rparr>))"

text \<open>
  \<^verbatim>\<open>DELETE FROM jobs WHERE id = j\<close>. Line 87 declares the reference
  \<^verbatim>\<open>ON DELETE CASCADE\<close>: the documents of the job go with it. No table references
  \<^verbatim>\<open>jobs\<close> with a restricting action, so the statement never fails.
\<close>

definition delete_job :: "int \<Rightarrow> db \<Rightarrow> db_error + db" where
  "delete_job j s =
     Inr (s\<lparr>jobs := jobs s - {j},
            rag_job_documents := filter (\<lambda>r. job_id r \<noteq> j) (rag_job_documents s)\<rparr>)"

text \<open>
  \<^verbatim>\<open>UPDATE jobs SET id = new WHERE id = old\<close>. The reference has no \<^verbatim>\<open>ON UPDATE\<close>
  clause, so a key that documents still refer to cannot change.
\<close>

definition renumber_job :: "int \<Rightarrow> int \<Rightarrow> db \<Rightarrow> db_error + db" where
  "renumber_job old new s =
     (if old \<notin> jobs s \<or> new = old then Inr s
      else if new \<in> jobs s then Inl (unique_violation ''jobs_pkey'')
      else if \<exists>r \<in> set (rag_job_documents s). job_id r = old then
        Inl (foreign_key_violation ''rag_job_documents_job_id_fkey'')
      else Inr (s\<lparr>jobs := insert new (jobs s - {old})\<rparr>))"

datatype statement =
    InsertJob int
  | DeleteJob int
  | RenumberJob int int
  | InsertDoc rag_doc
  | UpdateDoc rag_doc
  | DeleteDoc int

fun execute :: "statement \<Rightarrow> db \<Rightarrow> db_error + db" where
  "execute (InsertJob j) s = insert_job j s"
| "execute (DeleteJob j) s = delete_job j s"
| "execute (RenumberJob old new) s = renumber_job old new s"
| "execute (InsertDoc d) s = insert_rag_doc d s"
| "execute (UpdateDoc d) s = update_rag_doc d s"
| "execute (DeleteDoc i) s = delete_rag_doc i s"

text \<open>A failed statement changes nothing; a script stops at its first error.\<close>

fun run :: "statement list \<Rightarrow> db \<Rightarrow> db_error + db" where
  "run [] s = Inr s"
| "run (st # sts) s = (case execute st s of Inl e \<Rightarrow> Inl e | Inr s' \<Rightarrow> run sts s')"

text \<open>The states the tables can be in: those that accepted statements lead to.\<close>

inductive reachable :: "db \<Rightarrow> bool" where
  reachable_empty: "reachable empty_db"
| reachable_step: "reachable s \<Longrightarrow> execute st s = Inr s' \<Longrightarrow> reachable s'"

text \<open>Lines 130 to 134: the index for nearest-neighbour search.\<close>

datatype index_method = btree | gin | ivfflat

datatype vector_opclass = vector_l2_ops | vector_ip_ops | vector_cosine_ops

record vector_index =
  idx_table :: string
  idx_column :: string
  idx_method :: index_method
  idx_opclass :: vector_opclass
  idx_lists :: nat

definition idx_rag_job_docs_embedding_vec :: vector_index where
  "idx_rag_job_docs_embedding_vec =
     \<lparr>idx_table = ''rag_job_documents'', idx_column = ''embedding_vec'',
      idx_method = ivfflat, idx_opclass = vector_cosine_ops, idx_lists = 100\<rparr>"

text \<open>
  What the constraints are meant to keep: every document belongs to a job, every stored
  embedding has the column's dimension, and among the rows that have a section type
  equal keys mean the same row.
\<close>

definition fk_ok :: "db \<Rightarrow> bool" where
  "fk_ok s = (\<forall>d \<in> set (rag_job_documents s). job_id d \<in> jobs s)"

definition dims_ok :: "db \<Rightarrow> bool" where
  "dims_ok s = (\<forall>d \<in> set (rag_job_documents s). embedding_fits d)"

definition keyed_unique :: "rag_doc set \<Rightarrow> bool" where
  "keyed_unique A = (\<forall>x \<in> A. \<forall>y \<in> A.
      section_type x \<noteq> None \<and> doc_key x = doc_key y \<longrightarrow> doc_id x = doc_id y)"

definition uq_ok :: "db \<Rightarrow> bool" where
  "uq_ok s = keyed_unique (set (rag_job_documents s))"

text \<open>Two rows of job 1 to run the statements on: a full-job document and a section chunk.\<close>

definition full_row :: "int \<Rightarrow> rag_doc" where
  "full_row i = \<lparr>doc_id = i, job_id = 1, doc_type = ''job_full'', section_type = None,
     chunk_index = 0, content = ''Backend developer'', metadata = None, embedding_vec = None,
     created_at = 0, updated_at = 0\<rparr>"

definition section_row :: "int \<Rightarrow> rag_doc" where
  "section_row i = \<lparr>doc_id = i, job_id = 1, doc_type = ''job_section'',
     section_type = Some ''mo_ta_cong_viec'', chunk_index = 0, content = ''Build the API'',
     metadata = None, embedding_vec = None, created_at = 0, updated_at = 0\<rparr>"

text \<open>
  The extension's operator classes and the distance operator each of them indexes:
  \<^verbatim>\<open>vector_cosine_ops\<close> serves \<^verbatim>\<open><=>\<close>, the cosine distance.
\<close>

datatype distance_operator = l2_distance | negative_inner_product | cosine_distance

fun opclass_operator :: "vector_opclass \<Rightarrow> distance_operator" where
  "opclass_operator vector_l2_ops = l2_distance"
| "opclass_operator vector_ip_ops = negative_inner_product"
| "opclass_operator vector_cosine_ops = cosine_distance"

text \<open>A section chunk of job 1 that carries an embedding of the column's dimension.\<close>

definition embedded_row :: "int \<Rightarrow> rag_doc" where
  "embedded_row i = (section_row i)\<lparr>embedding_vec := Some (replicate 1536 0)\<rparr>"

section \<open>The retriever's vector search\<close>

text \<open>
  Modelled from the spec: the Hybrid Retriever is not among the sources. Section 4.3
  makes a dimension mismatch between the query and the stored vectors a fatal
  configuration error.
\<close>

datatype retrieval_error = Fatal_dimension_mismatch nat nat

text \<open>Modelled from the spec: the inner product that the cosine of section 4.3 needs.\<close>

definition dot :: "rat list \<Rightarrow> rat list \<Rightarrow> rat" where
  "dot u v = sum_list (map (\<lambda>(a, b). a * b) (zip u v))"

text \<open>
  Modelled from the spec: the similarity metric of sections 4.3 and 6 is the cosine of
  the angle between two vectors, here over the reals.
\<close>

definition cosine_similarity :: "rat list \<Rightarrow> rat list \<Rightarrow> real" where
  "cosine_similarity u v =
     real_of_rat (dot u v) / (sqrt (real_of_rat (dot u u)) * sqrt (real_of_rat (dot v v)))"

text \<open>
  Modelled from the spec: comparing the query with one stored vector fails loudly when
  their dimensions differ (section 4.3, error conditions).
\<close>

definition similarity :: "rat list \<Rightarrow> rat list \<Rightarrow> retrieval_error + real" where
  "similarity q v =
     (if length q \<noteq> length v then Inl (Fatal_dimension_mismatch (length q) (length v))
      else Inr (cosine_similarity q v))"

text \<open>
  Modelled from the spec: the vector search of section 4.3 scores every document that
  has an embedding against the query; the first failing comparison fails the search.
  Ranking and the cut at \<^verbatim>\<open>top_k\<close> come after and are not modelled.
\<close>

fun score_all :: "rat list \<Rightarrow> rag_doc list \<Rightarrow> retrieval_error + (rag_doc \<times> real) list" where
  "score_all q [] = Inr []"
| "score_all q (d # ds) =
     (case embedding_vec d of
        None \<Rightarrow> score_all q ds
      | Some v \<Rightarrow>
          (case similarity q v of
             Inl e \<Rightarrow> Inl e
           | Inr c \<Rightarrow> (case score_all q ds of Inl e \<Rightarrow> Inl e | Inr r \<Rightarrow> Inr ((d, c) # r))))"

text \<open>Modelled from the spec: the search runs over the rows of the documents table.\<close>

definition vector_search :: "rat list \<Rightarrow> db \<Rightarrow> retrieval_error + (rag_doc \<times> real) list" where
  "vector_search q s = score_all q (rag_job_documents s)"

section \<open>Chunker and indexer\<close>

text \<open>
  Modelled from the spec: neither the Document Chunker (section 4.1) nor the Embedding
  Indexer (section 4.2) is among the sources. A job record is what section 3 lists: its
  identity, its attributes and its free-text sections, each tagged with a section type.
\<close>

datatype doc_kind = job_full | job_section

record jsection =
  sec_type :: string
  sec_text :: string

record JobRecord =
  jr_job_id :: int
  jr_title :: string
  jr_company :: string
  jr_locations :: "string list"
  jr_salary :: string
  jr_deadline :: string
  jr_experience :: string
  jr_sections :: "jsection list"

text \<open>
  Modelled from the spec: the chunker yields tuples
  \<^verbatim>\<open>(doc_type, section_type, chunk_index, content)\<close> (section 4.1).
\<close>

type_synonym chunk_tuple = "doc_kind \<times> string option \<times> nat \<times> string"

text \<open>
  Modelled from the spec: what section 4.1 leaves to configuration, as functions: the
  full-job summary, the splitting of a section's text under the maximum-length policy,
  and the metadata snapshot of section 3.
\<close>

record chunk_policy =
  summarise :: "JobRecord \<Rightarrow> string"
  split_text :: "string \<Rightarrow> string list"
  snapshot :: "JobRecord \<Rightarrow> (string \<times> string) list"

text \<open>
  Modelled from the spec: the characters that make a section whitespace-only, here the
  ASCII white space.
\<close>

definition is_space :: "char \<Rightarrow> bool" where
  "is_space c = (c = CHR '' '' \<or> c = CHR 0x09 \<or> c = CHR 0x0A \<or> c = CHR 0x0B
                 \<or> c = CHR 0x0C \<or> c = CHR 0x0D)"

text \<open>Modelled from the spec: an empty or whitespace-only section (section 4.1).\<close>

definition blank :: "string \<Rightarrow> bool" where
  "blank s = list_all is_space s"

text \<open>
  Modelled from the spec: a section that is not blank is split into chunks that keep
  its section type and are numbered from zero; a blank one emits nothing.
\<close>

definition section_chunks :: "chunk_policy \<Rightarrow> jsection \<Rightarrow> chunk_tuple list" where
  "section_chunks P sec =
     (if blank (sec_text sec) then []
      else map (\<lambda>(i, c). (job_section, Some (sec_type sec), i, c))
             (enumerate 0 (split_text P (sec_text sec))))"

text \<open>
  Modelled from the spec: exactly one full-job document, chunk 0 and no section type,
  then the chunks of the sections in order (section 4.1).
\<close>

definition chunker :: "chunk_policy \<Rightarrow> JobRecord \<Rightarrow> chunk_tuple list" where
  "chunker P j = (job_full, None, 0, summarise P j) # concat (map (section_chunks P) (jr_sections j))"

text \<open>
  Modelled from the spec: a retrieval document is identified by
  \<^verbatim>\<open>(job_id, doc_type, section_type, chunk_index)\<close> and carries content, metadata
  snapshot, embedding and the two timestamps (section 3). The index maps keys to
  documents.
\<close>

type_synonym rd_key = "int \<times> doc_kind \<times> string option \<times> nat"

record retrieval_document =
  rd_content :: string
  rd_metadata :: "(string \<times> string) list"
  rd_embedding :: "rat list"
  rd_created_at :: nat
  rd_updated_at :: nat

type_synonym retrieval_index = "(rd_key \<times> retrieval_document) list"

text \<open>Modelled from the spec: the two failures of the embedding capability (section 6).\<close>

datatype embedding_failure = EmbeddingUnavailable | EmbeddingRejected

text \<open>
  Modelled from the spec: what a re-index reports, namely the writes it made, in order,
  and the chunks it skipped because their embedding failed (section 4.2).
\<close>

datatype index_write = Inserted rd_key | Updated rd_key | Deleted rd_key

record reindex_report =
  writes :: "index_write list"
  failed :: "(rd_key \<times> embedding_failure) list"

text \<open>
  Modelled from the spec: of the taxonomy of section 7, the errors that end a re-index:
  the job is absent, or the chunk-key invariant is violated.
\<close>

datatype index_error = NotFound | Fatal

text \<open>
  Modelled from the spec: the composite key of a chunk of job \<open>jid\<close> and the chunk's
  content (sections 3 and 4.1).
\<close>

definition chunk_key :: "int \<Rightarrow> chunk_tuple \<Rightarrow> rd_key" where
  "chunk_key jid ch = (case ch of (kind, sec, i, c) \<Rightarrow> (jid, kind, sec, i))"

definition chunk_content :: "chunk_tuple \<Rightarrow> string" where
  "chunk_content ch = (case ch of (kind, sec, i, c) \<Rightarrow> c)"

text \<open>
  Modelled from the spec: the upsert of one chunk (section 4.2). Its embedding is
  computed first; when that fails the chunk is skipped and reported, and its previous
  version stays. Otherwise a matching key is updated only if the content differs, and a
  new key is inserted. \<open>embed_text\<close> is the embedding capability, \<open>now\<close> the time.
\<close>

definition reconcile_chunk ::
  "nat \<Rightarrow> (string \<Rightarrow> embedding_failure + rat list) \<Rightarrow> (string \<times> string) list \<Rightarrow> int \<Rightarrow>
     chunk_tuple \<Rightarrow> retrieval_index \<times> reindex_report \<Rightarrow> retrieval_index \<times> reindex_report" where
  "reconcile_chunk now embed_text meta jid ch st =
     (let k = chunk_key jid ch; c = chunk_content ch; idx = fst st; rep = snd st in
      case embed_text c of
        Inl e \<Rightarrow> (idx, rep\<lparr>failed := failed rep @ [(k, e)]\<rparr>)
      | Inr v \<Rightarrow>
          (case map_of idx k of
             None \<Rightarrow>
               (idx @ [(k, \<lparr>rd_content = c, rd_metadata = meta, rd_embedding = v,
                            rd_created_at = now, rd_updated_at = now\<rparr>)],
                rep\<lparr>writes := writes rep @ [Inserted k]\<rparr>)
           | Some d \<Rightarrow>
               if rd_content d = c then (idx, rep)
               else (AList.update k (d\<lparr>rd_content := c, rd_metadata := meta, rd_embedding := v,
                                       rd_updated_at := now\<rparr>) idx,
                     rep\<lparr>writes := writes rep @ [Updated k]\<rparr>)))"

text \<open>
  Modelled from the spec: the keys present in storage for the job but absent from the
  new chunk set (section 4.2).
\<close>

definition stale_keys :: "int \<Rightarrow> rd_key list \<Rightarrow> retrieval_index \<Rightarrow> rd_key list" where
  "stale_keys jid keys idx = filter (\<lambda>k. fst k = jid \<and> k \<notin> set keys) (map fst idx)"

text \<open>
  Modelled from the spec: \<^verbatim>\<open>reindex(job_id)\<close> of section 4.2. It fetches the job
  record, runs the chunker, reconciles every chunk against the index and deletes the
  stale keys. Chunk keys that repeat violate the invariant of section 3 and halt the
  re-index with the index untouched (section 7).
\<close>

definition reindex ::
  "chunk_policy \<Rightarrow> (int \<Rightarrow> JobRecord option) \<Rightarrow> (string \<Rightarrow> embedding_failure + rat list) \<Rightarrow>
     nat \<Rightarrow> int \<Rightarrow> retrieval_index \<Rightarrow> index_error + retrieval_index \<times> reindex_report" where
  "reindex P getJob embed_text now jid idx =
     (case getJob jid of
        None \<Rightarrow> Inl NotFound
      | Some j \<Rightarrow>
          let chunks = chunker P j; keys = map (chunk_key jid) chunks in
          if \<not> distinct keys then Inl Fatal
          else
            let st = fold (reconcile_chunk now embed_text (snapshot P j) jid) chunks
                       (idx, \<lparr>writes = [], failed = []\<rparr>);
                stale = stale_keys jid keys (fst st)
            in Inr (filter (\<lambda>kd. fst kd \<notin> set stale) (fst st),
                    (snd st)\<lparr>writes := writes (snd st) @ map Deleted stale\<rparr>))"

text \<open>The index holds a chunk: its key is present with the chunk's content.\<close>

definition holds_chunk :: "int \<Rightarrow> retrieval_index \<Rightarrow> chunk_tuple \<Rightarrow> bool" where
  "holds_chunk jid idx ch =
     (case map_of idx (chunk_key jid ch) of None \<Rightarrow> False | Some d \<Rightarrow> rd_content d = chunk_content ch)"

text \<open>
  The scenario of section 8: job \<^verbatim>\<open>J1\<close> with the one section
  \<^verbatim>\<open>description: "A. B. C."\<close> under a policy of one sentence per chunk, with an
  embedding capability that always answers and one that is unavailable for \<^verbatim>\<open>B.\<close>
\<close>

fun split_sentences :: "bool \<Rightarrow> string \<Rightarrow> string \<Rightarrow> string list" where
  "split_sentences skip acc [] = (if acc = [] then [] else [acc])"
| "split_sentences skip acc (c # cs) =
     (if skip \<and> is_space c then split_sentences True acc cs
      else if c = CHR ''.'' then (acc @ [c]) # split_sentences True [] cs
      else split_sentences False (acc @ [c]) cs)"

definition sentence_policy :: chunk_policy where
  "sentence_policy = \<lparr>summarise = jr_title, split_text = split_sentences True [],
      snapshot = (\<lambda>j. [(''company'', jr_company j)])\<rparr>"

definition job_J1 :: JobRecord where
  "job_J1 = \<lparr>jr_job_id = 1, jr_title = ''J1'', jr_company = ''ACME'', jr_locations = [],
     jr_salary = [], jr_deadline = [], jr_experience = [],
     jr_sections = [\<lparr>sec_type = ''description'', sec_text = ''A. B. C.''\<rparr>]\<rparr>"

definition getJob_J1 :: "int \<Rightarrow> JobRecord option" where
  "getJob_J1 i = (if i = 1 then Some job_J1 else None)"

definition embed_ok :: "string \<Rightarrow> embedding_failure + rat list" where
  "embed_ok c = Inr [of_nat (length c)]"

definition embed_flaky :: "string \<Rightarrow> embedding_failure + rat list" where
  "embed_flaky c = (if c = ''B.'' then Inl EmbeddingUnavailable else embed_ok c)"

definition doc_J1 :: "string \<Rightarrow> nat \<Rightarrow> retrieval_document" where
  "doc_J1 c t = \<lparr>rd_content = c, rd_metadata = [(''company'', ''ACME'')],
     rd_embedding = [of_nat (length c)], rd_created_at = t, rd_updated_at = t\<rparr>"

section \<open>Properties of \<^verbatim>\<open>request\<close>\<close>

lemma get_prop_Some_truthy: "get_prop data k = Some d \<Longrightarrow> truthy data"
  by (cases data) simp_all

text \<open>
  Claim C10, as amended. Given any HTTP response, \<^verbatim>\<open>request\<close> resolves exactly when
  the response is ok, and then with the parsed body, or \<^verbatim>\<open>null\<close> when the body does not
  parse. Otherwise it rejects. When the body's \<^verbatim>\<open>detail\<close> is truthy the error's message
  is the string conversion of \<^verbatim>\<open>detail\<close> (the detail itself for a non-empty string),
  or the conversion's \<^verbatim>\<open>TypeError\<close> replaces the error; when \<^verbatim>\<open>detail\<close> is absent
  or falsy the message is \<^verbatim>\<open>Request failed\<close>. The error's status is the HTTP status and
  its data the parsed body or \<^verbatim>\<open>null\<close>.
\<close>

theorem request_settles:
  "((\<exists>d. request (Response res) = Resolved d) \<longleftrightarrow> res_ok res)
   \<and> (res_ok res \<longrightarrow> request (Response res) = Resolved (parsed_or_null res))
   \<and> (\<not> res_ok res \<longrightarrow>
        (\<forall>d. get_prop (parsed_or_null res) ''detail'' = Some d \<and> truthy d \<longrightarrow>
           request (Response res) =
             (case js_to_string d of
                Some m \<Rightarrow> Rejected (HttpError \<lparr>err_message = m, err_status = res_status res,
                                               err_data = parsed_or_null res\<rparr>)
              | None \<Rightarrow> Rejected TypeError))
      \<and> (\<forall>s. get_prop (parsed_or_null res) ''detail'' = Some (JStr s) \<and> s \<noteq> [] \<longrightarrow>
           request (Response res) =
             Rejected (HttpError \<lparr>err_message = s, err_status = res_status res,
                                  err_data = parsed_or_null res\<rparr>))
      \<and> ((get_prop (parsed_or_null res) ''detail'' = None
           \<or> (\<exists>d. get_prop (parsed_or_null res) ''detail'' = Some d \<and> \<not> truthy d)) \<longrightarrow>
           request (Response res) =
             Rejected (HttpError \<lparr>err_message = ''Request failed'', err_status = res_status res,
                                  err_data = parsed_or_null res\<rparr>)))"
proof (intro conjI impI allI)
  show "(\<exists>d. request (Response res) = Resolved d) \<longleftrightarrow> res_ok res"
    by (simp add: request_def settle_response_def Let_def split: option.splits)
next
  assume "res_ok res"
  then show "request (Response res) = Resolved (parsed_or_null res)"
    by (simp add: request_def settle_response_def)
next
  fix d
  assume nok: "\<not> res_ok res"
    and d: "get_prop (parsed_or_null res) ''detail'' = Some d \<and> truthy d"
  then have "truthy (parsed_or_null res)"
    by (blast dest: get_prop_Some_truthy)
  with d have "error_message_value (parsed_or_null res) = d"
    by (simp add: error_message_value_def)
  with nok show "request (Response res) =
      (case js_to_string d of
         Some m \<Rightarrow> Rejected (HttpError \<lparr>err_message = m, err_status = res_status res,
                                        err_data = parsed_or_null res\<rparr>)
       | None \<Rightarrow> Rejected TypeError)"
    by (simp add: request_def settle_response_def split: option.splits)
next
  fix s
  assume nok: "\<not> res_ok res"
    and d: "get_prop (parsed_or_null res) ''detail'' = Some (JStr s) \<and> s \<noteq> []"
  then have "truthy (parsed_or_null res)"
    by (blast dest: get_prop_Some_truthy)
  with d have "error_message_value (parsed_or_null res) = JStr s"
    by (simp add: error_message_value_def)
  with nok show "request (Response res) =
      Rejected (HttpError \<lparr>err_message = s, err_status = res_status res,
                           err_data = parsed_or_null res\<rparr>)"
    by (simp add: request_def settle_response_def)
next
  assume nok: "\<not> res_ok res"
    and d: "get_prop (parsed_or_null res) ''detail'' = None
           \<or> (\<exists>d. get_prop (parsed_or_null res) ''detail'' = Some d \<and> \<not> truthy d)"
  then have "error_message_value (parsed_or_null res) = JStr ''Request failed''"
    by (auto simp: error_message_value_def)
  with nok show "request (Response res) =
      Rejected (HttpError \<lparr>err_message = ''Request failed'', err_status = res_status res,
                           err_data = parsed_or_null res\<rparr>)"
    by (simp add: request_def settle_response_def)
qed

theorem request_settles_witness:
  "\<not> res_ok \<lparr>res_ok = False, res_status = 401,
              res_body = Some (JObj [(''detail'', JStr ''Unauthorized'')])\<rparr>
   \<and> get_prop (parsed_or_null \<lparr>res_ok = False, res_status = 401,
              res_body = Some (JObj [(''detail'', JStr ''Unauthorized'')])\<rparr>) ''detail''
       = Some (JStr ''Unauthorized'')
   \<and> request (Response \<lparr>res_ok = False, res_status = 401,
              res_body = Some (JObj [(''detail'', JStr ''Unauthorized'')])\<rparr>)
       = Rejected (HttpError \<lparr>err_message = ''Unauthorized'', err_status = 401,
              err_data = JObj [(''detail'', JStr ''Unauthorized'')]\<rparr>)"
  using request_settles [of "\<lparr>res_ok = False, res_status = 401,
              res_body = Some (JObj [(''detail'', JStr ''Unauthorized'')])\<rparr>"]
  by (simp add: parsed_or_null_def)

text \<open>
  Claim C10 as stated fails for a body whose \<^verbatim>\<open>detail\<close> is present and is the empty
  string: the message is \<^verbatim>\<open>Request failed\<close>, not the detail.
\<close>

theorem request_empty_detail_counterexample:
  "get_prop (parsed_or_null \<lparr>res_ok = False, res_status = 400,
              res_body = Some (JObj [(''detail'', JStr [])])\<rparr>) ''detail'' = Some (JStr [])
   \<and> request (Response \<lparr>res_ok = False, res_status = 400,
              res_body = Some (JObj [(''detail'', JStr [])])\<rparr>)
       = Rejected (HttpError \<lparr>err_message = ''Request failed'', err_status = 400,
              err_data = JObj [(''detail'', JStr [])]\<rparr>)
   \<and> ''Request failed'' \<noteq> ([] :: string)"
  by (simp add: request_def settle_response_def parsed_or_null_def error_message_value_def)

section \<open>Properties of the chat widget\<close>



lemma assistant_message_not_null: "renderHistory_throws (h @ [assistant_message m]) = renderHistory_throws h"
  by (simp add: renderHistory_throws_def assistant_message_def)



lemma on_chat_error_throws:
  "renderHistory_throws (chatHistory w) \<Longrightarrow>
     on_chat_error writable w = w\<lparr>chatHistory := chatHistory w @ [assistant_message (JStr apology_text)]\<rparr>"
  by (simp add: on_chat_error_def Let_def assistant_message_not_null)

















section \<open>Properties of the schema\<close>

subsection \<open>What an accepted statement tells\<close>

lemma insert_job_Inr:
  "insert_job j s = Inr s' \<Longrightarrow> j \<notin> jobs s \<and> s' = s\<lparr>jobs := insert j (jobs s)\<rparr>"
  by (cases "j \<in> jobs s") (auto simp: insert_job_def)

lemma delete_job_Inr:
  "delete_job j s = Inr s' \<Longrightarrow>
     s' = s\<lparr>jobs := jobs s - {j},
            rag_job_documents := filter (\<lambda>r. job_id r \<noteq> j) (rag_job_documents s)\<rparr>"
  by (auto simp: delete_job_def)

lemma delete_rag_doc_Inr:
  "delete_rag_doc i s = Inr s' \<Longrightarrow>
     s' = s\<lparr>rag_job_documents := filter (\<lambda>r. doc_id r \<noteq> i) (rag_job_documents s)\<rparr>"
  by (auto simp: delete_rag_doc_def)

lemma renumber_job_Inr:
  "renumber_job old new s = Inr s' \<Longrightarrow>
     s' = s \<or> ((\<forall>r \<in> set (rag_job_documents s). job_id r \<noteq> old)
               \<and> s' = s\<lparr>jobs := insert new (jobs s - {old})\<rparr>)"
  unfolding renumber_job_def
  by (cases "old \<notin> jobs s \<or> new = old"; cases "new \<in> jobs s";
      cases "\<exists>r \<in> set (rag_job_documents s). job_id r = old") auto

lemma insert_rag_doc_Inr:
  "insert_rag_doc d s = Inr s' \<Longrightarrow>
     embedding_fits d
     \<and> (\<forall>r \<in> set (rag_job_documents s). doc_id r \<noteq> doc_id d)
     \<and> (\<forall>r \<in> set (rag_job_documents s). \<not> uq_rag_job_docs_job_doc_chunk d r)
     \<and> job_id d \<in> jobs s
     \<and> s' = s\<lparr>rag_job_documents := rag_job_documents s @ [d]\<rparr>"
  unfolding insert_rag_doc_def
  by (cases "embedding_fits d"; cases "\<exists>r \<in> set (rag_job_documents s). doc_id r = doc_id d";
      cases "\<exists>r \<in> set (rag_job_documents s). uq_rag_job_docs_job_doc_chunk d r";
      cases "job_id d \<in> jobs s") auto

lemma update_rag_doc_Inr:
  "update_rag_doc d s = Inr s' \<Longrightarrow>
     s' = s
     \<or> (embedding_fits d
        \<and> (\<forall>r \<in> set (rag_job_documents s). doc_id r \<noteq> doc_id d \<longrightarrow> \<not> uq_rag_job_docs_job_doc_chunk d r)
        \<and> job_id d \<in> jobs s
        \<and> s' = s\<lparr>rag_job_documents :=
                   map (\<lambda>r. if doc_id r = doc_id d then d else r) (rag_job_documents s)\<rparr>)"
  unfolding update_rag_doc_def Let_def
  by (auto split: if_splits)


lemma set_replace_subset:
  "set (map (\<lambda>r. if doc_id r = doc_id d then d else r) ds)
     \<subseteq> insert d {r \<in> set ds. doc_id r \<noteq> doc_id d}"
  by auto

subsection \<open>The foreign key\<close>

lemma execute_fk_ok:
  assumes "fk_ok s" and "execute st s = Inr s'"
  shows "fk_ok s'"
proof (cases st)
  case (InsertJob j)
  with assms(2) have "s' = s\<lparr>jobs := insert j (jobs s)\<rparr>"
    by (simp add: insert_job_Inr)
  with assms(1) show ?thesis by (simp add: fk_ok_def)
next
  case (DeleteJob j)
  with assms(2) have "s' = s\<lparr>jobs := jobs s - {j},
            rag_job_documents := filter (\<lambda>r. job_id r \<noteq> j) (rag_job_documents s)\<rparr>"
    by (simp add: delete_job_Inr)
  with assms(1) show ?thesis by (simp add: fk_ok_def)
next
  case (RenumberJob old new)
  with assms(2) have "s' = s \<or> ((\<forall>r \<in> set (rag_job_documents s). job_id r \<noteq> old)
               \<and> s' = s\<lparr>jobs := insert new (jobs s - {old})\<rparr>)"
    by (simp add: renumber_job_Inr)
  with assms(1) show ?thesis by (auto simp: fk_ok_def)
next
  case (InsertDoc d)
  with assms(2) have "job_id d \<in> jobs s"
    and "s' = s\<lparr>rag_job_documents := rag_job_documents s @ [d]\<rparr>"
    by (simp_all add: insert_rag_doc_Inr)
  with assms(1) show ?thesis by (simp add: fk_ok_def)
next
  case (UpdateDoc d)
  with assms(2) have "s' = s \<or> (job_id d \<in> jobs s \<and> s' = s\<lparr>rag_job_documents :=
                   map (\<lambda>r. if doc_id r = doc_id d then d else r) (rag_job_documents s)\<rparr>)"
    using update_rag_doc_Inr [of d s s'] by auto
  with assms(1) show ?thesis by (auto simp: fk_ok_def)
next
  case (DeleteDoc i)
  with assms(2) have "s' = s\<lparr>rag_job_documents := filter (\<lambda>r. doc_id r \<noteq> i) (rag_job_documents s)\<rparr>"
    by (simp add: delete_rag_doc_Inr)
  with assms(1) show ?thesis by (simp add: fk_ok_def)
qed

lemma reachable_fk_ok: "reachable s \<Longrightarrow> fk_ok s"
proof (induction rule: reachable.induct)
  case reachable_empty
  show ?case by (simp add: fk_ok_def empty_db_def)
next
  case (reachable_step s st s')
  then show ?case by (blast intro: execute_fk_ok)
qed

subsection \<open>The column type of the embedding\<close>

lemma execute_dims_ok:
  assumes "dims_ok s" and "execute st s = Inr s'"
  shows "dims_ok s'"
proof (cases st)
  case (InsertJob j)
  with assms(2) have "s' = s\<lparr>jobs := insert j (jobs s)\<rparr>"
    by (simp add: insert_job_Inr)
  with assms(1) show ?thesis by (simp add: dims_ok_def)
next
  case (DeleteJob j)
  with assms(2) have "s' = s\<lparr>jobs := jobs s - {j},
            rag_job_documents := filter (\<lambda>r. job_id r \<noteq> j) (rag_job_documents s)\<rparr>"
    by (simp add: delete_job_Inr)
  with assms(1) show ?thesis by (simp add: dims_ok_def)
next
  case (RenumberJob old new)
  with assms(2) have "s' = s \<or> ((\<forall>r \<in> set (rag_job_documents s). job_id r \<noteq> old)
               \<and> s' = s\<lparr>jobs := insert new (jobs s - {old})\<rparr>)"
    by (simp add: renumber_job_Inr)
  with assms(1) show ?thesis by (auto simp: dims_ok_def)
next
  case (InsertDoc d)
  with assms(2) have "embedding_fits d"
    and "s' = s\<lparr>rag_job_documents := rag_job_documents s @ [d]\<rparr>"
    by (simp_all add: insert_rag_doc_Inr)
  with assms(1) show ?thesis by (simp add: dims_ok_def)
next
  case (UpdateDoc d)
  with assms(2) have "s' = s \<or> (embedding_fits d \<and> s' = s\<lparr>rag_job_documents :=
                   map (\<lambda>r. if doc_id r = doc_id d then d else r) (rag_job_documents s)\<rparr>)"
    using update_rag_doc_Inr [of d s s'] by auto
  with assms(1) show ?thesis by (auto simp: dims_ok_def)
next
  case (DeleteDoc i)
  with assms(2) have "s' = s\<lparr>rag_job_documents := filter (\<lambda>r. doc_id r \<noteq> i) (rag_job_documents s)\<rparr>"
    by (simp add: delete_rag_doc_Inr)
  with assms(1) show ?thesis by (simp add: dims_ok_def)
qed

lemma reachable_dims_ok: "reachable s \<Longrightarrow> dims_ok s"
proof (induction rule: reachable.induct)
  case reachable_empty
  show ?case by (simp add: dims_ok_def empty_db_def)
next
  case (reachable_step s st s')
  then show ?case by (blast intro: execute_dims_ok)
qed

subsection \<open>The unique index\<close>

lemma uq_conflict_iff:
  "uq_rag_job_docs_job_doc_chunk new old \<longleftrightarrow> section_type new \<noteq> None \<and> doc_key old = doc_key new"
  by (auto simp: uq_rag_job_docs_job_doc_chunk_def doc_key_def split: option.splits)

lemma doc_key_section: "doc_key x = doc_key y \<Longrightarrow> section_type x = section_type y"
  by (simp add: doc_key_def)

lemma keyed_unique_subset: "keyed_unique A \<Longrightarrow> B \<subseteq> A \<Longrightarrow> keyed_unique B"
  unfolding keyed_unique_def by blast

lemma keyed_unique_insert:
  assumes old: "keyed_unique A" and noc: "\<forall>r \<in> A. \<not> uq_rag_job_docs_job_doc_chunk d r"
  shows "keyed_unique (insert d A)"
  unfolding keyed_unique_def
proof (intro ballI impI)
  fix x y
  assume x: "x \<in> insert d A" and y: "y \<in> insert d A"
    and k: "section_type x \<noteq> None \<and> doc_key x = doc_key y"
  have sy: "section_type y \<noteq> None"
    using k doc_key_section by metis
  consider "x = d" "y = d" | "x = d" "y \<in> A" | "x \<in> A" "y = d" | "x \<in> A" "y \<in> A"
    using x y by blast
  then show "doc_id x = doc_id y"
  proof cases
    case 1
    then show ?thesis by simp
  next
    case 2
    with noc have "\<not> uq_rag_job_docs_job_doc_chunk d y" by blast
    with 2 k show ?thesis by (simp add: uq_conflict_iff)
  next
    case 3
    with noc have "\<not> uq_rag_job_docs_job_doc_chunk d x" by blast
    with 3 k sy show ?thesis by (simp add: uq_conflict_iff)
  next
    case 4
    with old k show ?thesis unfolding keyed_unique_def by blast
  qed
qed

lemma execute_uq_ok:
  assumes "uq_ok s" and "execute st s = Inr s'"
  shows "uq_ok s'"
proof (cases st)
  case (InsertJob j)
  with assms(2) have "s' = s\<lparr>jobs := insert j (jobs s)\<rparr>"
    by (simp add: insert_job_Inr)
  with assms(1) show ?thesis by (simp add: uq_ok_def)
next
  case (DeleteJob j)
  with assms(2) have "s' = s\<lparr>jobs := jobs s - {j},
            rag_job_documents := filter (\<lambda>r. job_id r \<noteq> j) (rag_job_documents s)\<rparr>"
    by (simp add: delete_job_Inr)
  then have "set (rag_job_documents s') \<subseteq> set (rag_job_documents s)" by auto
  with assms(1) show ?thesis unfolding uq_ok_def by (rule keyed_unique_subset)
next
  case (RenumberJob old new)
  with assms(2) have "s' = s \<or> ((\<forall>r \<in> set (rag_job_documents s). job_id r \<noteq> old)
               \<and> s' = s\<lparr>jobs := insert new (jobs s - {old})\<rparr>)"
    by (simp add: renumber_job_Inr)
  with assms(1) show ?thesis by (auto simp: uq_ok_def)
next
  case (InsertDoc d)
  with assms(2) have noc: "\<forall>r \<in> set (rag_job_documents s). \<not> uq_rag_job_docs_job_doc_chunk d r"
    and s': "s' = s\<lparr>rag_job_documents := rag_job_documents s @ [d]\<rparr>"
    by (simp_all add: insert_rag_doc_Inr)
  have "keyed_unique (insert d (set (rag_job_documents s)))"
    using assms(1) noc unfolding uq_ok_def by (rule keyed_unique_insert)
  with s' show ?thesis by (simp add: uq_ok_def)
next
  case (UpdateDoc d)
  with assms(2) have "s' = s \<or>
      ((\<forall>r \<in> set (rag_job_documents s). doc_id r \<noteq> doc_id d \<longrightarrow> \<not> uq_rag_job_docs_job_doc_chunk d r)
       \<and> s' = s\<lparr>rag_job_documents :=
                   map (\<lambda>r. if doc_id r = doc_id d then d else r) (rag_job_documents s)\<rparr>)"
    using update_rag_doc_Inr [of d s s'] by auto
  then show ?thesis
  proof
    assume "s' = s"
    with assms(1) show ?thesis by simp
  next
    assume u: "(\<forall>r \<in> set (rag_job_documents s). doc_id r \<noteq> doc_id d \<longrightarrow> \<not> uq_rag_job_docs_job_doc_chunk d r)
       \<and> s' = s\<lparr>rag_job_documents :=
                   map (\<lambda>r. if doc_id r = doc_id d then d else r) (rag_job_documents s)\<rparr>"
    let ?A = "{r \<in> set (rag_job_documents s). doc_id r \<noteq> doc_id d}"
    have "keyed_unique ?A"
      using assms(1) unfolding uq_ok_def by (rule keyed_unique_subset) auto
    moreover have "\<forall>r \<in> ?A. \<not> uq_rag_job_docs_job_doc_chunk d r"
      using u by simp
    ultimately have "keyed_unique (insert d ?A)"
      by (rule keyed_unique_insert)
    then have "keyed_unique (set (map (\<lambda>r. if doc_id r = doc_id d then d else r) (rag_job_documents s)))"
      using set_replace_subset by (rule keyed_unique_subset)
    with u show ?thesis by (simp add: uq_ok_def)
  qed
next
  case (DeleteDoc i)
  with assms(2) have "s' = s\<lparr>rag_job_documents := filter (\<lambda>r. doc_id r \<noteq> i) (rag_job_documents s)\<rparr>"
    by (simp add: delete_rag_doc_Inr)
  then have "set (rag_job_documents s') \<subseteq> set (rag_job_documents s)" by auto
  with assms(1) show ?thesis unfolding uq_ok_def by (rule keyed_unique_subset)
qed

lemma reachable_uq_ok: "reachable s \<Longrightarrow> uq_ok s"
proof (induction rule: reachable.induct)
  case reachable_empty
  show ?case by (simp add: uq_ok_def keyed_unique_def empty_db_def)
next
  case (reachable_step s st s')
  then show ?case by (blast intro: execute_uq_ok)
qed

lemma run_reachable: "reachable s \<Longrightarrow> run sts s = Inr s' \<Longrightarrow> reachable s'"
proof (induction sts arbitrary: s)
  case Nil
  then show ?case by simp
next
  case (Cons st sts)
  show ?case
  proof (cases "execute st s")
    case (Inl e)
    with Cons.prems(2) show ?thesis by simp
  next
    case (Inr t)
    with Cons.prems(1) have "reachable t" by (blast intro: reachable_step)
    moreover from Inr Cons.prems(2) have "run sts t = Inr s'" by simp
    ultimately show ?thesis by (rule Cons.IH)
  qed
qed

subsection \<open>Duplicate keys and cascading deletes\<close>

text \<open>
  Claim C1 at its failing input. A second full-job document of job 1, with the same
  document type, the same (\<^verbatim>\<open>NULL\<close>) section type and the same chunk index as the
  first, is accepted by the unique index, and the job then has a repeated key. With a
  section type the same pair of inserts is refused.
\<close>

theorem duplicate_job_full_accepted:
  "insert_job 1 empty_db = Inr \<lparr>jobs = {1}, rag_job_documents = []\<rparr>
   \<and> insert_rag_doc (full_row 1) \<lparr>jobs = {1}, rag_job_documents = []\<rparr>
       = Inr \<lparr>jobs = {1}, rag_job_documents = [full_row 1]\<rparr>
   \<and> insert_rag_doc (full_row 2) \<lparr>jobs = {1}, rag_job_documents = [full_row 1]\<rparr>
       = Inr \<lparr>jobs = {1}, rag_job_documents = [full_row 1, full_row 2]\<rparr>
   \<and> doc_key (full_row 1) = doc_key (full_row 2)
   \<and> \<not> distinct (map doc_key [full_row 1, full_row 2])
   \<and> insert_rag_doc (section_row 2) \<lparr>jobs = {1}, rag_job_documents = [section_row 1]\<rparr>
       = Inl (unique_violation ''uq_rag_job_docs_job_doc_chunk'')"
  by (simp add: insert_job_def insert_rag_doc_def empty_db_def full_row_def section_row_def
      embedding_fits_def uq_rag_job_docs_job_doc_chunk_def doc_key_def)

lemma reachable_one_section: "reachable \<lparr>jobs = {1}, rag_job_documents = [section_row 1]\<rparr>"
proof -
  have "execute (InsertJob 1) empty_db = Inr \<lparr>jobs = {1}, rag_job_documents = []\<rparr>"
    by (simp add: insert_job_def empty_db_def)
  with reachable_empty have r1: "reachable \<lparr>jobs = {1}, rag_job_documents = []\<rparr>"
    by (rule reachable_step)
  have "execute (InsertDoc (section_row 1)) \<lparr>jobs = {1}, rag_job_documents = []\<rparr>
      = Inr \<lparr>jobs = {1}, rag_job_documents = [section_row 1]\<rparr>"
    by (simp add: insert_rag_doc_def section_row_def embedding_fits_def)
  with r1 show ?thesis
    by (rule reachable_step)
qed

text \<open>
  Claim C4. In every state the tables can reach, each document's job exists. Deleting
  job \<open>j\<close> always succeeds and removes exactly the documents of \<open>j\<close>; and in whatever
  state later statements lead to, as long as no job \<open>j\<close> exists there, no rows read
  from \<^verbatim>\<open>rag_job_documents\<close> (whatever the query selects, orders or limits) carry
  \<open>j\<close>.
\<close>

theorem cascade_delete_no_orphans:
  assumes "reachable s"
  shows "(\<forall>d \<in> set (rag_job_documents s). job_id d \<in> jobs s)
    \<and> (\<exists>s'. execute (DeleteJob j) s = Inr s' \<and> reachable s' \<and> j \<notin> jobs s'
          \<and> rag_job_documents s' = filter (\<lambda>d. job_id d \<noteq> j) (rag_job_documents s)
          \<and> (\<forall>sts s'' res. run sts s' = Inr s'' \<and> j \<notin> jobs s''
                \<and> set res \<subseteq> set (rag_job_documents s'') \<longrightarrow> (\<forall>d \<in> set res. job_id d \<noteq> j)))"
proof -
  have inv: "\<forall>d \<in> set (rag_job_documents s). job_id d \<in> jobs s"
    using assms reachable_fk_ok by (simp add: fk_ok_def)
  define s' where "s' = s\<lparr>jobs := jobs s - {j},
            rag_job_documents := filter (\<lambda>r. job_id r \<noteq> j) (rag_job_documents s)\<rparr>"
  have ex: "execute (DeleteJob j) s = Inr s'"
    by (simp add: delete_job_def s'_def)
  have r': "reachable s'"
    using assms ex by (rule reachable_step)
  have later: "\<forall>d \<in> set res. job_id d \<noteq> j"
    if "run sts s' = Inr s''" and "j \<notin> jobs s''" and "set res \<subseteq> set (rag_job_documents s'')"
    for sts s'' res
  proof -
    have "reachable s''"
      using r' that(1) by (rule run_reachable)
    then have "\<forall>d \<in> set (rag_job_documents s''). job_id d \<in> jobs s''"
      using reachable_fk_ok by (simp add: fk_ok_def)
    with that(2,3) show ?thesis
      by blast
  qed
  have "j \<notin> jobs s'" and "rag_job_documents s' = filter (\<lambda>d. job_id d \<noteq> j) (rag_job_documents s)"
    by (simp_all add: s'_def)
  with inv ex r' later show ?thesis
    by blast
qed

theorem cascade_delete_no_orphans_witness:
  "reachable \<lparr>jobs = {1}, rag_job_documents = [section_row 1]\<rparr>
   \<and> job_id (section_row 1) \<in> jobs \<lparr>jobs = {1}, rag_job_documents = [section_row 1]\<rparr>
   \<and> execute (DeleteJob 1) \<lparr>jobs = {1}, rag_job_documents = [section_row 1]\<rparr>
       = Inr \<lparr>jobs = {}, rag_job_documents = []\<rparr>
   \<and> reachable \<lparr>jobs = {}, rag_job_documents = []\<rparr>"
  using cascade_delete_no_orphans [OF reachable_one_section, of 1] reachable_one_section
  by (auto simp: delete_job_def section_row_def)

section \<open>Properties of the indexer\<close>

lemma map_of_filter_key:
  "map_of (filter (\<lambda>kd. Q (fst kd)) al) k = (if Q k then map_of al k else None)"
  by (induction al) auto

lemma reconcile_chunk_failed_grows:
  "\<exists>xs. failed (snd (reconcile_chunk now emb meta jid ch st)) = failed (snd st) @ xs"
  by (simp add: reconcile_chunk_def Let_def split: sum.splits option.splits)

lemma fold_reconcile_failed_grows:
  "\<exists>xs. failed (snd (fold (reconcile_chunk now emb meta jid) chs st)) = failed (snd st) @ xs"
proof (induction chs arbitrary: st)
  case Nil
  show ?case by simp
next
  case (Cons ch chs)
  obtain xs where "failed (snd (reconcile_chunk now emb meta jid ch st)) = failed (snd st) @ xs"
    using reconcile_chunk_failed_grows by blast
  moreover obtain ys where "failed (snd (fold (reconcile_chunk now emb meta jid) chs
        (reconcile_chunk now emb meta jid ch st)))
      = failed (snd (reconcile_chunk now emb meta jid ch st)) @ ys"
    using Cons.IH by blast
  ultimately show ?case by simp
qed

lemma reconcile_chunk_no_failure:
  assumes "failed (snd (reconcile_chunk now emb meta jid ch st)) = []"
  shows "\<exists>v. emb (chunk_content ch) = Inr v"
proof (cases "emb (chunk_content ch)")
  case (Inl e)
  with assms show ?thesis by (simp add: reconcile_chunk_def Let_def)
next
  case (Inr v)
  then show ?thesis by blast
qed

lemma fold_reconcile_no_failure:
  assumes "failed (snd (fold (reconcile_chunk now emb meta jid) chs st)) = []"
  shows "\<forall>ch \<in> set chs. \<exists>v. emb (chunk_content ch) = Inr v"
  using assms
proof (induction chs arbitrary: st)
  case Nil
  show ?case by simp
next
  case (Cons ch chs)
  let ?st = "reconcile_chunk now emb meta jid ch st"
  from Cons.prems have f: "failed (snd (fold (reconcile_chunk now emb meta jid) chs ?st)) = []"
    by simp
  obtain ys where "failed (snd (fold (reconcile_chunk now emb meta jid) chs ?st)) = failed (snd ?st) @ ys"
    using fold_reconcile_failed_grows by blast
  with f have "failed (snd ?st) = []" by simp
  then have "\<exists>v. emb (chunk_content ch) = Inr v"
    by (rule reconcile_chunk_no_failure)
  moreover have "\<forall>ch \<in> set chs. \<exists>v. emb (chunk_content ch) = Inr v"
    using f by (rule Cons.IH)
  ultimately show ?case by simp
qed

lemma reconcile_chunk_other_key:
  assumes "k \<noteq> chunk_key jid ch"
  shows "map_of (fst (reconcile_chunk now emb meta jid ch st)) k = map_of (fst st) k"
  using assms
  by (auto simp: reconcile_chunk_def Let_def update_conv' map_add_def split: sum.splits option.splits)

lemma fold_reconcile_other_key:
  assumes "k \<notin> chunk_key jid ` set chs"
  shows "map_of (fst (fold (reconcile_chunk now emb meta jid) chs st)) k = map_of (fst st) k"
  using assms
proof (induction chs arbitrary: st)
  case Nil
  show ?case by simp
next
  case (Cons ch chs)
  then have "k \<noteq> chunk_key jid ch" and "k \<notin> chunk_key jid ` set chs" by auto
  then show ?case
    by (simp add: Cons.IH reconcile_chunk_other_key)
qed

lemma reconcile_chunk_stores:
  assumes "emb (chunk_content ch) = Inr v"
  shows "\<exists>d. map_of (fst (reconcile_chunk now emb meta jid ch st)) (chunk_key jid ch) = Some d
             \<and> rd_content d = chunk_content ch"
  using assms
  by (auto simp: reconcile_chunk_def Let_def update_conv' map_add_def split: option.splits)

lemma fold_reconcile_stores:
  assumes "distinct (map (chunk_key jid) chs)"
    and "\<forall>ch \<in> set chs. \<exists>v. emb (chunk_content ch) = Inr v"
  shows "\<forall>ch \<in> set chs. holds_chunk jid (fst (fold (reconcile_chunk now emb meta jid) chs st)) ch"
  using assms
proof (induction chs arbitrary: st)
  case Nil
  show ?case by simp
next
  case (Cons ch chs)
  let ?st = "reconcile_chunk now emb meta jid ch st"
  from Cons.prems have d: "distinct (map (chunk_key jid) chs)"
    and nk: "chunk_key jid ch \<notin> chunk_key jid ` set chs"
    and e: "\<exists>v. emb (chunk_content ch) = Inr v"
    and es: "\<forall>ch \<in> set chs. \<exists>v. emb (chunk_content ch) = Inr v"
    by auto
  have rest: "\<forall>c \<in> set chs. holds_chunk jid (fst (fold (reconcile_chunk now emb meta jid) chs ?st)) c"
    using d es by (rule Cons.IH)
  from e obtain dd where "map_of (fst ?st) (chunk_key jid ch) = Some dd" "rd_content dd = chunk_content ch"
    using reconcile_chunk_stores by blast
  moreover have "map_of (fst (fold (reconcile_chunk now emb meta jid) chs ?st)) (chunk_key jid ch)
      = map_of (fst ?st) (chunk_key jid ch)"
    using nk by (rule fold_reconcile_other_key)
  ultimately have "holds_chunk jid (fst (fold (reconcile_chunk now emb meta jid) chs ?st)) ch"
    by (simp add: holds_chunk_def)
  with rest show ?case by simp
qed

lemma reconcile_chunk_unchanged:
  assumes "holds_chunk jid (fst st) ch"
  shows "fst (reconcile_chunk now emb meta jid ch st) = fst st
         \<and> writes (snd (reconcile_chunk now emb meta jid ch st)) = writes (snd st)"
  using assms
  by (auto simp: reconcile_chunk_def holds_chunk_def Let_def split: sum.splits option.splits)

lemma fold_reconcile_unchanged:
  assumes "\<forall>ch \<in> set chs. holds_chunk jid (fst st) ch"
  shows "fst (fold (reconcile_chunk now emb meta jid) chs st) = fst st
         \<and> writes (snd (fold (reconcile_chunk now emb meta jid) chs st)) = writes (snd st)"
  using assms
proof (induction chs arbitrary: st)
  case Nil
  show ?case by simp
next
  case (Cons ch chs)
  let ?st = "reconcile_chunk now emb meta jid ch st"
  from Cons.prems have "holds_chunk jid (fst st) ch" by simp
  then have u: "fst ?st = fst st \<and> writes (snd ?st) = writes (snd st)"
    by (rule reconcile_chunk_unchanged)
  with Cons.prems have "\<forall>c \<in> set chs. holds_chunk jid (fst ?st) c" by simp
  then have "fst (fold (reconcile_chunk now emb meta jid) chs ?st) = fst ?st
         \<and> writes (snd (fold (reconcile_chunk now emb meta jid) chs ?st)) = writes (snd ?st)"
    by (rule Cons.IH)
  with u show ?case by simp
qed


lemma chunk_key_job: "fst (chunk_key jid ch) = jid"
  by (simp add: chunk_key_def split: prod.splits)

lemma reindex_Inr:
  assumes "reindex P getJob emb now jid idx = Inr (idx', rep)"
  obtains j where "getJob jid = Some j"
    and "distinct (map (chunk_key jid) (chunker P j))"
    and "idx' = filter (\<lambda>kd. fst kd \<notin> set (stale_keys jid (map (chunk_key jid) (chunker P j))
            (fst (fold (reconcile_chunk now emb (snapshot P j) jid) (chunker P j)
                (idx, \<lparr>writes = [], failed = []\<rparr>)))))
          (fst (fold (reconcile_chunk now emb (snapshot P j) jid) (chunker P j)
                (idx, \<lparr>writes = [], failed = []\<rparr>)))"
    and "failed rep = failed (snd (fold (reconcile_chunk now emb (snapshot P j) jid) (chunker P j)
                (idx, \<lparr>writes = [], failed = []\<rparr>)))"
proof (cases "getJob jid")
  case None
  with assms show ?thesis by (simp add: reindex_def)
next
  case (Some j)
  show ?thesis
  proof (cases "distinct (map (chunk_key jid) (chunker P j))")
    case False
    with Some assms show ?thesis by (simp add: reindex_def Let_def)
  next
    case True
    with Some assms that [of j] show ?thesis
      by (auto simp: reindex_def Let_def)
  qed
qed

lemma stale_filter:
  "fst kd \<notin> set (stale_keys jid keys al) \<longleftrightarrow> \<not> (fst kd \<in> fst ` set al \<and> fst (fst kd) = jid \<and> fst kd \<notin> set keys)"
  by (auto simp: stale_keys_def)

lemma pruned_holds:
  assumes "holds_chunk jid al ch" and "chunk_key jid ch \<in> set keys"
  shows "holds_chunk jid (filter (\<lambda>kd. fst kd \<notin> set (stale_keys jid keys al)) al) ch"
proof -
  have "map_of (filter (\<lambda>kd. fst kd \<notin> set (stale_keys jid keys al)) al) (chunk_key jid ch)
      = map_of al (chunk_key jid ch)"
    using assms(2) map_of_filter_key [of "\<lambda>k. k \<notin> set (stale_keys jid keys al)" al "chunk_key jid ch"]
    by (simp add: stale_keys_def)
  with assms(1) show ?thesis by (simp add: holds_chunk_def)
qed

lemma pruned_no_stale:
  "stale_keys jid keys (filter (\<lambda>kd. fst kd \<notin> set (stale_keys jid keys al)) al) = []"
  by (auto simp: stale_keys_def filter_empty_conv)

text \<open>
  Claim C2, as amended. The chunker is a function of the job record alone, so a second
  run yields the same tuples. When a re-index of a job has succeeded and reported no
  failed chunk, re-indexing the same job record again, at any later time and whatever
  the embedding capability then answers, succeeds, performs no write and leaves the
  index, with every document's content, embedding and timestamps, as it was.
\<close>

theorem reindex_unchanged_no_writes:
  assumes first: "reindex P getJob emb1 t1 jid idx0 = Inr (idx1, rep1)"
    and ok: "failed rep1 = []"
  shows "\<exists>rep2. reindex P getJob emb2 t2 jid idx1 = Inr (idx1, rep2) \<and> writes rep2 = []"
proof -
  from first obtain j where j: "getJob jid = Some j"
    and dist: "distinct (map (chunk_key jid) (chunker P j))"
    and idx1: "idx1 = filter (\<lambda>kd. fst kd \<notin> set (stale_keys jid (map (chunk_key jid) (chunker P j))
            (fst (fold (reconcile_chunk t1 emb1 (snapshot P j) jid) (chunker P j)
                (idx0, \<lparr>writes = [], failed = []\<rparr>)))))
          (fst (fold (reconcile_chunk t1 emb1 (snapshot P j) jid) (chunker P j)
                (idx0, \<lparr>writes = [], failed = []\<rparr>)))"
    and f: "failed rep1 = failed (snd (fold (reconcile_chunk t1 emb1 (snapshot P j) jid) (chunker P j)
                (idx0, \<lparr>writes = [], failed = []\<rparr>)))"
    by (rule reindex_Inr)
  let ?chunks = "chunker P j"
  let ?keys = "map (chunk_key jid) ?chunks"
  let ?st1 = "fold (reconcile_chunk t1 emb1 (snapshot P j) jid) ?chunks (idx0, \<lparr>writes = [], failed = []\<rparr>)"
  have "failed (snd ?st1) = []"
    using ok f by simp
  then have "\<forall>ch \<in> set ?chunks. \<exists>v. emb1 (chunk_content ch) = Inr v"
    by (rule fold_reconcile_no_failure)
  with dist have "\<forall>ch \<in> set ?chunks. holds_chunk jid (fst ?st1) ch"
    by (rule fold_reconcile_stores)
  then have held: "\<forall>ch \<in> set ?chunks. holds_chunk jid idx1 ch"
    unfolding idx1 by (auto intro: pruned_holds)
  let ?st2 = "fold (reconcile_chunk t2 emb2 (snapshot P j) jid) ?chunks (idx1, \<lparr>writes = [], failed = []\<rparr>)"
  have "fst ?st2 = fst (idx1, \<lparr>writes = [], failed = []\<rparr>)
      \<and> writes (snd ?st2) = writes (snd (idx1, \<lparr>writes = [], failed = []\<rparr>))"
    by (rule fold_reconcile_unchanged) (use held in simp)
  then have st2: "fst ?st2 = idx1" "writes (snd ?st2) = []"
    by simp_all
  have stale: "stale_keys jid ?keys idx1 = []"
    unfolding idx1 by (rule pruned_no_stale)
  have "reindex P getJob emb2 t2 jid idx1
      = Inr (filter (\<lambda>kd. fst kd \<notin> set (stale_keys jid ?keys (fst ?st2))) (fst ?st2),
             (snd ?st2)\<lparr>writes := writes (snd ?st2) @ map Deleted (stale_keys jid ?keys (fst ?st2))\<rparr>)"
    using j dist by (simp add: reindex_def Let_def)
  also have "\<dots> = Inr (idx1, (snd ?st2)\<lparr>writes := []\<rparr>)"
    using st2 stale by simp
  finally show ?thesis
    by simp
qed


theorem reindex_unchanged_no_writes_witness:
  "reindex sentence_policy getJob_J1 embed_ok 10 1 [] =
     Inr ([((1, job_full, None, 0), doc_J1 ''J1'' 10),
           ((1, job_section, Some ''description'', 0), doc_J1 ''A.'' 10),
           ((1, job_section, Some ''description'', 1), doc_J1 ''B.'' 10),
           ((1, job_section, Some ''description'', 2), doc_J1 ''C.'' 10)],
          \<lparr>writes = [Inserted (1, job_full, None, 0),
                     Inserted (1, job_section, Some ''description'', 0),
                     Inserted (1, job_section, Some ''description'', 1),
                     Inserted (1, job_section, Some ''description'', 2)],
           failed = []\<rparr>)
   \<and> (\<exists>rep2. reindex sentence_policy getJob_J1 embed_flaky 20 1
          [((1, job_full, None, 0), doc_J1 ''J1'' 10),
           ((1, job_section, Some ''description'', 0), doc_J1 ''A.'' 10),
           ((1, job_section, Some ''description'', 1), doc_J1 ''B.'' 10),
           ((1, job_section, Some ''description'', 2), doc_J1 ''C.'' 10)]
        = Inr ([((1, job_full, None, 0), doc_J1 ''J1'' 10),
           ((1, job_section, Some ''description'', 0), doc_J1 ''A.'' 10),
           ((1, job_section, Some ''description'', 1), doc_J1 ''B.'' 10),
           ((1, job_section, Some ''description'', 2), doc_J1 ''C.'' 10)], rep2)
        \<and> writes rep2 = [])"
proof -
  have first: "reindex sentence_policy getJob_J1 embed_ok 10 1 [] =
     Inr ([((1, job_full, None, 0), doc_J1 ''J1'' 10),
           ((1, job_section, Some ''description'', 0), doc_J1 ''A.'' 10),
           ((1, job_section, Some ''description'', 1), doc_J1 ''B.'' 10),
           ((1, job_section, Some ''description'', 2), doc_J1 ''C.'' 10)],
          \<lparr>writes = [Inserted (1, job_full, None, 0),
                     Inserted (1, job_section, Some ''description'', 0),
                     Inserted (1, job_section, Some ''description'', 1),
                     Inserted (1, job_section, Some ''description'', 2)],
           failed = []\<rparr>)"
    by code_simp
  show ?thesis
    using first reindex_unchanged_no_writes [OF first, of embed_flaky 20] by simp
qed

text \<open>
  Claim C2 as stated fails when the earlier re-index skipped a chunk: the embedding of
  \<^verbatim>\<open>B.\<close> was unavailable at time 10, and the re-index at time 20 of the unchanged job
  writes that chunk.
\<close>

theorem reindex_after_failure_counterexample:
  "reindex sentence_policy getJob_J1 embed_flaky 10 1 [] =
     Inr ([((1, job_full, None, 0), doc_J1 ''J1'' 10),
           ((1, job_section, Some ''description'', 0), doc_J1 ''A.'' 10),
           ((1, job_section, Some ''description'', 2), doc_J1 ''C.'' 10)],
          \<lparr>writes = [Inserted (1, job_full, None, 0),
                     Inserted (1, job_section, Some ''description'', 0),
                     Inserted (1, job_section, Some ''description'', 2)],
           failed = [((1, job_section, Some ''description'', 1), EmbeddingUnavailable)]\<rparr>)
   \<and> reindex sentence_policy getJob_J1 embed_ok 20 1
          [((1, job_full, None, 0), doc_J1 ''J1'' 10),
           ((1, job_section, Some ''description'', 0), doc_J1 ''A.'' 10),
           ((1, job_section, Some ''description'', 2), doc_J1 ''C.'' 10)]
     = Inr ([((1, job_full, None, 0), doc_J1 ''J1'' 10),
             ((1, job_section, Some ''description'', 0), doc_J1 ''A.'' 10),
             ((1, job_section, Some ''description'', 2), doc_J1 ''C.'' 10),
             ((1, job_section, Some ''description'', 1), doc_J1 ''B.'' 20)],
            \<lparr>writes = [Inserted (1, job_section, Some ''description'', 1)], failed = []\<rparr>)"
  by code_simp

section \<open>Properties of the vector search\<close>

lemma score_all_scores:
  "score_all q ds = Inr r \<Longrightarrow>
     \<forall>(d, c) \<in> set r. \<exists>v. d \<in> set ds \<and> embedding_vec d = Some v \<and> c = cosine_similarity q v"
proof (induction ds arbitrary: r)
  case Nil
  then show ?case by simp
next
  case (Cons d ds)
  show ?case
  proof (cases "embedding_vec d")
    case None
    with Cons.prems have "score_all q ds = Inr r" by simp
    then have "\<forall>(d, c) \<in> set r. \<exists>v. d \<in> set ds \<and> embedding_vec d = Some v \<and> c = cosine_similarity q v"
      by (rule Cons.IH)
    then show ?thesis by auto
  next
    case (Some v)
    with Cons.prems obtain c r' where c: "similarity q v = Inr c" and r': "score_all q ds = Inr r'"
      and r: "r = (d, c) # r'"
      by (auto split: sum.splits)
    from r' have "\<forall>(d, c) \<in> set r'. \<exists>v. d \<in> set ds \<and> embedding_vec d = Some v \<and> c = cosine_similarity q v"
      by (rule Cons.IH)
    moreover from c have "c = cosine_similarity q v"
      by (simp add: similarity_def split: if_splits)
    ultimately show ?thesis using r Some by auto
  qed
qed

lemma score_all_mismatch:
  assumes "\<forall>d \<in> set ds. \<forall>v. embedding_vec d = Some v \<longrightarrow> length v = n"
    and "length q \<noteq> n" and "\<exists>d \<in> set ds. embedding_vec d \<noteq> None"
  shows "score_all q ds = Inl (Fatal_dimension_mismatch (length q) n)"
  using assms
proof (induction ds)
  case Nil
  then show ?case by simp
next
  case (Cons d ds)
  show ?case
  proof (cases "embedding_vec d")
    case None
    with Cons.prems have "\<exists>d \<in> set ds. embedding_vec d \<noteq> None" by auto
    moreover from Cons.prems have "\<forall>d \<in> set ds. \<forall>v. embedding_vec d = Some v \<longrightarrow> length v = n" by simp
    ultimately have "score_all q ds = Inl (Fatal_dimension_mismatch (length q) n)"
      using Cons.prems(2) Cons.IH by blast
    with None show ?thesis by simp
  next
    case (Some v)
    with Cons.prems have "length v = n" by simp
    with Some Cons.prems(2) show ?thesis by (simp add: similarity_def)
  qed
qed


lemma reachable_embedded: "reachable \<lparr>jobs = {1}, rag_job_documents = [embedded_row 1]\<rparr>"
proof -
  have "execute (InsertJob 1) empty_db = Inr \<lparr>jobs = {1}, rag_job_documents = []\<rparr>"
    by (simp add: insert_job_def empty_db_def)
  with reachable_empty have r1: "reachable \<lparr>jobs = {1}, rag_job_documents = []\<rparr>"
    by (rule reachable_step)
  have "execute (InsertDoc (embedded_row 1)) \<lparr>jobs = {1}, rag_job_documents = []\<rparr>
      = Inr \<lparr>jobs = {1}, rag_job_documents = [embedded_row 1]\<rparr>"
    by (simp add: insert_rag_doc_def embedded_row_def section_row_def embedding_fits_def
        embedding_dim_def)
  with r1 show ?thesis
    by (rule reachable_step)
qed

text \<open>
  Claim C3. In every state the tables can reach, each stored embedding has 1536
  dimensions. The nearest-neighbour index is built for the cosine distance, and every
  score the vector search returns is the cosine similarity of the query and the stored
  vector. A query of another dimension, run against an index that holds at least one
  embedding, ends in the fatal dimension-mismatch error, never in an empty result.
\<close>

theorem stored_embeddings_dimension:
  assumes "reachable s"
  shows "(\<forall>d \<in> set (rag_job_documents s). \<forall>v. embedding_vec d = Some v \<longrightarrow> length v = 1536)
    \<and> opclass_operator (idx_opclass idx_rag_job_docs_embedding_vec) = cosine_distance
    \<and> (\<forall>r. vector_search q s = Inr r \<longrightarrow>
          (\<forall>(d, c) \<in> set r. \<exists>v. embedding_vec d = Some v \<and> c = cosine_similarity q v))
    \<and> (length q \<noteq> 1536 \<and> (\<exists>d \<in> set (rag_job_documents s). embedding_vec d \<noteq> None) \<longrightarrow>
          vector_search q s = Inl (Fatal_dimension_mismatch (length q) 1536))"
proof -
  have "dims_ok s"
    using assms by (rule reachable_dims_ok)
  then have dims: "\<forall>d \<in> set (rag_job_documents s). \<forall>v. embedding_vec d = Some v \<longrightarrow> length v = 1536"
    by (auto simp: dims_ok_def embedding_fits_def embedding_dim_def)
  have cos: "opclass_operator (idx_opclass idx_rag_job_docs_embedding_vec) = cosine_distance"
    by (simp add: idx_rag_job_docs_embedding_vec_def)
  have scores: "\<forall>(d, c) \<in> set r. \<exists>v. embedding_vec d = Some v \<and> c = cosine_similarity q v"
    if "vector_search q s = Inr r" for r
    using score_all_scores [of q "rag_job_documents s" r] that
    by (fastforce simp: vector_search_def)
  have loud: "vector_search q s = Inl (Fatal_dimension_mismatch (length q) 1536)"
    if "length q \<noteq> 1536" and "\<exists>d \<in> set (rag_job_documents s). embedding_vec d \<noteq> None"
    unfolding vector_search_def using dims that by (rule score_all_mismatch)
  from dims cos scores loud show ?thesis
    by blast
qed

theorem stored_embeddings_dimension_witness:
  "reachable \<lparr>jobs = {1}, rag_job_documents = [embedded_row 1]\<rparr>
   \<and> length (the (embedding_vec (embedded_row 1))) = 1536
   \<and> vector_search [1, 2, 3] \<lparr>jobs = {1}, rag_job_documents = [embedded_row 1]\<rparr>
       = Inl (Fatal_dimension_mismatch 3 1536)"
  using stored_embeddings_dimension [OF reachable_embedded, of "[1, 2, 3]"] reachable_embedded
  by (simp add: embedded_row_def)

end
